theory Spec2Isabelle
  imports Complex_Main
begin

section \<open>JavaScript strings\<close>

text \<open>
  Strings are lists of code units; the model covers the code units below 256 (Latin-1),
  which is where every character class of the validators lives.
\<close>

definition code_unit :: "char \<Rightarrow> nat" where
  "code_unit c = of_char c"

definition is_lower :: "char \<Rightarrow> bool" where
  "is_lower c = (97 \<le> code_unit c \<and> code_unit c \<le> 122)"

definition is_upper :: "char \<Rightarrow> bool" where
  "is_upper c = (65 \<le> code_unit c \<and> code_unit c \<le> 90)"

definition is_digit :: "char \<Rightarrow> bool" where
  "is_digit c = (48 \<le> code_unit c \<and> code_unit c \<le> 57)"

text \<open>\<^verbatim>\<open>String.prototype.trim\<close> strips TAB, LF, VT, FF, CR, space and NBSP.\<close>

definition is_ws :: "char \<Rightarrow> bool" where
  "is_ws c = (code_unit c \<in> {9, 10, 11, 12, 13, 32, 160})"

definition trim :: "string \<Rightarrow> string" where
  "trim s = rev (dropWhile is_ws (rev (dropWhile is_ws s)))"

text \<open>\<^verbatim>\<open>toLowerCase\<close> on Latin-1: A-Z and the accented capitals (without the
  multiplication sign) move up by 32.\<close>

definition toLowerCase_char :: "char \<Rightarrow> char" where
  "toLowerCase_char c =
     (let n = code_unit c
      in if (65 \<le> n \<and> n \<le> 90) \<or> (192 \<le> n \<and> n \<le> 222 \<and> n \<noteq> 215)
         then char_of (n + 32) else c)"

definition toLowerCase :: "string \<Rightarrow> string" where
  "toLowerCase s = map toLowerCase_char s"

text \<open>Case folding of the \<^verbatim>\<open>/i\<close> flag against an ASCII pattern character: only
  ASCII letters fold.\<close>

definition fold_case :: "char \<Rightarrow> char" where
  "fold_case c = (if is_upper c then char_of (code_unit c + 32) else c)"

definition startsWith :: "string \<Rightarrow> string \<Rightarrow> bool" where
  "startsWith s p = (take (length p) s = p)"

fun includes_str :: "string \<Rightarrow> string \<Rightarrow> bool" where
  "includes_str [] sub = (sub = [])"
| "includes_str (x # xs) sub = (startsWith (x # xs) sub \<or> includes_str xs sub)"

text \<open>\<^verbatim>\<open>s.split(sep)\<close> for a one-character separator: one more part than separators.\<close>

fun split :: "char \<Rightarrow> string \<Rightarrow> string list" where
  "split sep [] = [[]]"
| "split sep (x # xs) =
     (if x = sep then [] # split sep xs
      else (case split sep xs of p # ps \<Rightarrow> (x # p) # ps | [] \<Rightarrow> [[x]]))"

text \<open>\<^verbatim>\<open>s.replace(/[...]/g, r)\<close> for a character class: every matching code unit is
  replaced by \<open>r\<close>.\<close>

definition replace_class :: "(char \<Rightarrow> bool) \<Rightarrow> string \<Rightarrow> string \<Rightarrow> string" where
  "replace_class cls r s = concat (map (\<lambda>c. if cls c then r else [c]) s)"

section \<open>security/validators.ts\<close>

record ValidationResult =
  valid :: bool
  error :: "string option"

definition ok :: ValidationResult where
  "ok = \<lparr> valid = True, error = None \<rparr>"

definition invalid :: "string \<Rightarrow> ValidationResult" where
  "invalid msg = \<lparr> valid = False, error = Some msg \<rparr>"

text \<open>\<^verbatim>\<open>/^[a-z0-9-]+\.vincere\.io$/i\<close>: a non-empty label of letters, digits and hyphens,
  then the literal suffix, compared case-insensitively.\<close>

definition host_label_char :: "char \<Rightarrow> bool" where
  "host_label_char c = (is_lower (fold_case c) \<or> is_digit c \<or> c = CHR ''-'')"

definition VINCERE_HOST_PATTERN :: "string \<Rightarrow> bool" where
  "VINCERE_HOST_PATTERN s =
     (let n = length s - 11
      in 11 < length s \<and> list_all host_label_char (take n s)
         \<and> map fold_case (drop n s) = ''.vincere.io'')"

definition SSRF_BLOCKLIST :: "string list" where
  "SSRF_BLOCKLIST =
     [''localhost'', ''127.0.0.1'', ''0.0.0.0'', ''::1'', ''169.254.169.254'',
      ''metadata.google.internal'']"

text \<open>The six patterns of \<^verbatim>\<open>PRIVATE_IP_RANGES\<close>, in the source's order.\<close>

definition range_172 :: "string \<Rightarrow> bool" where
  "range_172 s =
     (startsWith s ''172.'' \<and>
      (case drop 4 s of
         a # b # c # _ \<Rightarrow>
           c = CHR ''.'' \<and>
           ((a = CHR ''1'' \<and> b \<in> set ''6789'') \<or> (a = CHR ''2'' \<and> is_digit b)
            \<or> (a = CHR ''3'' \<and> b \<in> set ''01''))
       | _ \<Rightarrow> False))"

definition PRIVATE_IP_RANGES :: "(string \<Rightarrow> bool) list" where
  "PRIVATE_IP_RANGES =
     [\<lambda>s. startsWith s ''10.'',
      range_172,
      \<lambda>s. startsWith s ''192.168.'',
      \<lambda>s. startsWith s ''169.254.'',
      \<lambda>s. startsWith (map fold_case s) ''fc00:'',
      \<lambda>s. startsWith (map fold_case s) ''fe80:'']"

text \<open>A query or route parameter that is not a string (absent, an array, an object) is
  \<open>None\<close>: the validators test \<^verbatim>\<open>typeof x !== 'string'\<close> themselves.\<close>

definition validateTenantHost :: "string option \<Rightarrow> ValidationResult" where
  "validateTenantHost tenantHost =
     (case tenantHost of
        None \<Rightarrow> invalid ''Tenant host is required''
      | Some h \<Rightarrow>
          if h = [] then invalid ''Tenant host is required''
          else let normalized = toLowerCase (trim h)
               in if length normalized = 0 \<or> length normalized > 253
                    then invalid ''Invalid tenant host length''
                  else if \<not> VINCERE_HOST_PATTERN normalized
                    then invalid ''Invalid tenant host format''
                  else if normalized \<in> set SSRF_BLOCKLIST
                    then invalid ''Invalid tenant host''
                  else if list_ex (\<lambda>range. range normalized) PRIVATE_IP_RANGES
                    then invalid ''Invalid tenant host''
                  else ok)"

definition validatePath :: "string option \<Rightarrow> ValidationResult" where
  "validatePath path =
     (case path of
        None \<Rightarrow> invalid ''Path is required''
      | Some p \<Rightarrow>
          if p = [] then invalid ''Path is required''
          else let trimmed = trim p
               in if includes_str trimmed ''..'' \<or> includes_str trimmed ''//''
                    then invalid ''Invalid path''
                  else if includes_str trimmed [char_of (0::nat)]
                    then invalid ''Invalid path''
                  else if startsWith trimmed ''/'' \<or> startsWith trimmed ''http://''
                          \<or> startsWith trimmed ''https://''
                    then invalid ''Invalid path format''
                  else ok)"

text \<open>\<^verbatim>\<open>/^[a-zA-Z0-9-_]+$/\<close> and \<^verbatim>\<open>/^[a-zA-Z0-9-_=+/]+$/\<close>.\<close>

definition nonce_char :: "char \<Rightarrow> bool" where
  "nonce_char c = (is_lower c \<or> is_upper c \<or> is_digit c \<or> c \<in> set ''-_'')"

definition code_char :: "char \<Rightarrow> bool" where
  "code_char c = (is_lower c \<or> is_upper c \<or> is_digit c \<or> c \<in> set ''-_=+/'')"

definition validateOAuthState :: "string option \<Rightarrow> ValidationResult" where
  "validateOAuthState state =
     (case state of
        None \<Rightarrow> invalid ''State parameter is required''
      | Some s \<Rightarrow>
          if s = [] then invalid ''State parameter is required''
          else (case split CHR '':'' s of
                  [nonce, tenantHost] \<Rightarrow>
                    if nonce = [] \<or> length nonce < 16 \<or> length nonce > 128
                       \<or> \<not> (nonce \<noteq> [] \<and> list_all nonce_char nonce)
                      then invalid ''Invalid state''
                    else let hostValidation = validateTenantHost (Some tenantHost)
                         in if \<not> valid hostValidation then hostValidation else ok
                | _ \<Rightarrow> invalid ''Invalid state format''))"

definition validateAuthCode :: "string option \<Rightarrow> ValidationResult" where
  "validateAuthCode code =
     (case code of
        None \<Rightarrow> invalid ''Authorization code is required''
      | Some c \<Rightarrow>
          if c = [] then invalid ''Authorization code is required''
          else if length c < 10 \<or> length c > 1024 then invalid ''Invalid code length''
          else if \<not> (c \<noteq> [] \<and> list_all code_char c) then invalid ''Invalid code format''
          else ok)"

section \<open>infra/keyvault.ts: secret names\<close>

datatype secretType = RefreshToken | ApiKey

fun secretType_str :: "secretType \<Rightarrow> string" where
  "secretType_str RefreshToken = ''refresh_token''"
| "secretType_str ApiKey = ''api_key''"

definition clean_char :: "char \<Rightarrow> bool" where
  "clean_char c = (is_lower c \<or> is_upper c \<or> is_digit c \<or> c = CHR ''-'')"

definition buildSecretName :: "string \<Rightarrow> secretType \<Rightarrow> string" where
  "buildSecretName tenant secretType =
     (let cleanTenant = replace_class (\<lambda>c. \<not> clean_char c) ''-'' tenant
      in ''vincere/'' @ cleanTenant @ ''/'' @ secretType_str secretType)"

section \<open>Configuration and the outside world\<close>

record Config =
  idBase :: string
  clientId :: string
  redirectUri :: string
  idTokenCacheSeconds :: int

text \<open>The token endpoint's JSON, with the fields the code tests for presence optional. An
  answer is a JSON object or some other document; a body that is JSON \<^verbatim>\<open>null\<close> is not
  among the payloads.\<close>

record TokenResponse =
  access_token :: string
  refresh_token :: "string option"
  id_token :: "string option"
  expires_in :: int
  token_type :: string

datatype payload = Tokens TokenResponse | Document string

fun refresh_token_of :: "payload \<Rightarrow> string option" where
  "refresh_token_of (Tokens t) = refresh_token t"
| "refresh_token_of (Document _) = None"

fun id_token_of :: "payload \<Rightarrow> string option" where
  "id_token_of (Tokens t) = id_token t"
| "id_token_of (Document _) = None"

text \<open>JavaScript truthiness of an optional string: present and not empty.\<close>

fun truthy :: "string option \<Rightarrow> bool" where
  "truthy None = False"
| "truthy (Some s) = (s \<noteq> [])"

datatype body = Form "(string \<times> string) list" | Json string | NoBody

record http_request =
  url :: string
  params :: "(string \<times> string) list"
  http_method :: string
  headers :: "(string \<times> string) list"
  content :: body

record http_response =
  status :: nat
  data :: payload

record AxiosError =
  response :: "http_response option"
  message :: string

function show_nat :: "nat \<Rightarrow> string" where
  "show_nat n =
     (if n < 10 then [char_of (48 + n)] else show_nat (n div 10) @ [char_of (48 + n mod 10)])"
  by pat_completeness auto
termination
  by (relation "measure id") auto

declare show_nat.simps [simp del]

datatype error =
    SecretNotFound
  | KeyVaultError string
  | AxiosFailure AxiosError
  | TokenExchangeFailed nat
  | InvalidTokenResponse
  | TokenRefreshFailed nat
  | InvalidTokenRefreshResponse
  | TenantNotAuthorized

fun error_message :: "error \<Rightarrow> string" where
  "error_message SecretNotFound = ''SecretNotFound''"
| "error_message (KeyVaultError msg) = msg"
| "error_message (AxiosFailure err) = message err"
| "error_message (TokenExchangeFailed st) = ''Token exchange failed with status '' @ show_nat st"
| "error_message InvalidTokenResponse = ''Invalid token response''"
| "error_message (TokenRefreshFailed st) = ''Token refresh failed with status '' @ show_nat st"
| "error_message InvalidTokenRefreshResponse = ''Invalid token refresh response''"
| "error_message TenantNotAuthorized = ''Tenant not authorized - no refresh token found''"

text \<open>
  What the surroundings do is a parameter of the model: the answer of the network to the
  \<open>k\<close>-th transmission, the \<open>k\<close>-th value of \<^verbatim>\<open>Math.random()\<close>, and whether the Key Vault
  client fails (with an error other than \<^verbatim>\<open>SecretNotFound\<close>) at the \<open>k\<close>-th external call.
\<close>

datatype wire_outcome = NoAnswer string | Answer nat payload

record env =
  config :: Config
  wire :: "nat \<Rightarrow> http_request \<Rightarrow> wire_outcome"
  random :: "nat \<Rightarrow> real"
  kv_fault :: "nat \<Rightarrow> string option"

datatype effect = GetSecret string | SetSecret string string | HttpCall http_request

record CachedIdToken =
  token :: string
  expiresAt :: int

text \<open>
  The process state (\<open>idTokenCache\<close>), the Key Vault's content, and a history: the
  external calls made so far, the number of requests put on the wire, and the delays
  slept between retries.
\<close>

record world =
  idTokenCache :: "string \<rightharpoonup> CachedIdToken"
  secrets :: "string \<rightharpoonup> string"
  trace :: "effect list"
  transmissions :: nat
  delays :: "real list"

section \<open>infra/keyvault.ts\<close>

definition client_getSecret :: "env \<Rightarrow> string \<Rightarrow> world \<Rightarrow> (error + string) \<times> world" where
  "client_getSecret e secretName w =
     (let w' = w\<lparr>trace := trace w @ [GetSecret secretName]\<rparr>
      in case kv_fault e (length (trace w)) of
           Some msg \<Rightarrow> (Inl (KeyVaultError msg), w')
         | None \<Rightarrow>
             (case secrets w secretName of
                None \<Rightarrow> (Inl SecretNotFound, w')
              | Some v \<Rightarrow> (Inr v, w')))"

definition client_setSecret :: "env \<Rightarrow> string \<Rightarrow> string \<Rightarrow> world \<Rightarrow> (error + unit) \<times> world" where
  "client_setSecret e secretName v w =
     (let w' = w\<lparr>trace := trace w @ [SetSecret secretName v]\<rparr>
      in case kv_fault e (length (trace w)) of
           Some msg \<Rightarrow> (Inl (KeyVaultError msg), w')
         | None \<Rightarrow> (Inr (), w'\<lparr>secrets := (secrets w')(secretName \<mapsto> v)\<rparr>))"

definition getSecretOrNull :: "env \<Rightarrow> string \<Rightarrow> world \<Rightarrow> (error + string option) \<times> world" where
  "getSecretOrNull e secretName w =
     (case client_getSecret e secretName w of
        (Inr v, w') \<Rightarrow> if v = [] then (Inr None, w') else (Inr (Some v), w')
      | (Inl SecretNotFound, w') \<Rightarrow> (Inr None, w')
      | (Inl err, w') \<Rightarrow> (Inl err, w'))"

definition setSecret :: "env \<Rightarrow> string \<Rightarrow> string \<Rightarrow> world \<Rightarrow> (error + unit) \<times> world" where
  "setSecret e secretName v w = client_setSecret e secretName v w"

section \<open>infra/axiosClient.ts\<close>

definition validateStatus :: "nat \<Rightarrow> bool" where
  "validateStatus st = True"

definition retries :: nat where
  "retries = 3"

definition retryDelay :: "nat \<Rightarrow> real \<Rightarrow> real" where
  "retryDelay retryCount rnd =
     (let baseDelay = 2 ^ retryCount * 1000; jitter = rnd * 1000 in baseDelay + jitter)"

definition retryCondition :: "AxiosError \<Rightarrow> bool" where
  "retryCondition err =
     (case response err of
        None \<Rightarrow> True
      | Some r \<Rightarrow> status r = 429 \<or> status r = 502 \<or> status r = 503 \<or> status r = 504)"

text \<open>
  The dispatch of the \<^verbatim>\<open>axios\<close> and \<^verbatim>\<open>axios-retry\<close> packages around these options. A
  transmission that gets an HTTP answer is resolved when \<open>validateStatus\<close> accepts its
  status and rejected with the response attached otherwise; one that gets no answer
  because of a network error is rejected without a response. Only a rejection reaches the
  retry interceptor, which retransmits while fewer than \<open>retries\<close> retries were made and
  \<open>retryCondition\<close> holds, after sleeping \<open>retryDelay\<close> of the retry's number. A
  transmission that runs into the client's own timeout of 100 seconds is not among the
  outcomes of \<open>wire\<close>: it uses up the time the retries share.
\<close>

definition settle :: "wire_outcome \<Rightarrow> AxiosError + http_response" where
  "settle outcome =
     (case outcome of
        NoAnswer msg \<Rightarrow> Inl \<lparr> response = None, message = msg \<rparr>
      | Answer st d \<Rightarrow>
          if validateStatus st then Inr \<lparr> status = st, data = d \<rparr>
          else Inl \<lparr> response = Some \<lparr> status = st, data = d \<rparr>,
                     message = ''Request failed with status code '' @ show_nat st \<rparr>)"

function transmit :: "env \<Rightarrow> http_request \<Rightarrow> nat \<Rightarrow> world \<Rightarrow> (AxiosError + http_response) \<times> world" where
  "transmit e req retryCount w =
     (let w1 = w\<lparr>transmissions := transmissions w + 1\<rparr>
      in case settle (wire e (transmissions w) req) of
           Inr resp \<Rightarrow> (Inr resp, w1)
         | Inl err \<Rightarrow>
             if retryCount < retries \<and> retryCondition err
             then transmit e req (retryCount + 1)
                    (w1\<lparr>delays := delays w1
                          @ [retryDelay (retryCount + 1) (random e (length (delays w1)))]\<rparr>)
             else (Inl err, w1))"
  by pat_completeness auto
termination
  by (relation "measure (\<lambda>(e, req, retryCount, w). retries - retryCount)") auto

declare transmit.simps [simp del]

definition axiosClient_request :: "env \<Rightarrow> http_request \<Rightarrow> world \<Rightarrow> (AxiosError + http_response) \<times> world" where
  "axiosClient_request e req w = transmit e req 0 (w\<lparr>trace := trace w @ [HttpCall req]\<rparr>)"

section \<open>oauth/service.ts\<close>

definition tokenUrl :: "env \<Rightarrow> string" where
  "tokenUrl e = idBase (config e) @ ''/oauth2/token''"

definition form_post :: "string \<Rightarrow> (string \<times> string) list \<Rightarrow> http_request" where
  "form_post u ps =
     \<lparr> url = u, params = [], http_method = ''POST'',
       headers = [(''Content-Type'', ''application/x-www-form-urlencoded'')],
       content = Form ps \<rparr>"

definition exchangeCodeForTokens ::
  "env \<Rightarrow> string \<Rightarrow> string \<Rightarrow> world \<Rightarrow> (error + string \<times> string) \<times> world" where
  "exchangeCodeForTokens e code tenantHost w =
     (let ps = [(''grant_type'', ''authorization_code''), (''code'', code),
                (''client_id'', clientId (config e)),
                (''redirect_uri'', redirectUri (config e))]
      in case axiosClient_request e (form_post (tokenUrl e) ps) w of
           (Inl err, w') \<Rightarrow> (Inl (AxiosFailure err), w')
         | (Inr resp, w') \<Rightarrow>
             if status resp \<noteq> 200 then (Inl (TokenExchangeFailed (status resp)), w')
             else (case (refresh_token_of (data resp), id_token_of (data resp)) of
                     (Some r, Some i) \<Rightarrow>
                       if r = [] \<or> i = [] then (Inl InvalidTokenResponse, w')
                       else (Inr (r, i), w')
                   | _ \<Rightarrow> (Inl InvalidTokenResponse, w')))"

definition refreshTokens :: "env \<Rightarrow> string \<Rightarrow> world \<Rightarrow> (error + payload) \<times> world" where
  "refreshTokens e refreshToken w =
     (let ps = [(''grant_type'', ''refresh_token''), (''refresh_token'', refreshToken),
                (''client_id'', clientId (config e))]
      in case axiosClient_request e (form_post (tokenUrl e) ps) w of
           (Inl err, w') \<Rightarrow> (Inl (AxiosFailure err), w')
         | (Inr resp, w') \<Rightarrow>
             if status resp \<noteq> 200 then (Inl (TokenRefreshFailed (status resp)), w')
             else if \<not> truthy (id_token_of (data resp))
               then (Inl InvalidTokenRefreshResponse, w')
             else (Inr (data resp), w'))"

text \<open>The value of a string property that has been tested to be present.\<close>

fun string_of :: "string option \<Rightarrow> string" where
  "string_of None = []"
| "string_of (Some s) = s"

definition cache_hit :: "world \<Rightarrow> string \<Rightarrow> int \<Rightarrow> string option" where
  "cache_hit w tenantHost now =
     (case idTokenCache w tenantHost of
        None \<Rightarrow> None
      | Some cached \<Rightarrow> if expiresAt cached > now then Some (token cached) else None)"

text \<open>\<open>now\<close> is the value \<^verbatim>\<open>Date.now()\<close> returns at the start of the call, in
  milliseconds; the expiry of a new cache entry is computed from it, after the awaits.\<close>

definition getIdTokenForTenant :: "env \<Rightarrow> int \<Rightarrow> string \<Rightarrow> world \<Rightarrow> (error + string) \<times> world" where
  "getIdTokenForTenant e now tenantHost w =
     (case cache_hit w tenantHost now of
        Some tok \<Rightarrow> (Inr tok, w)
      | None \<Rightarrow>
          let refreshTokenSecretName = buildSecretName tenantHost RefreshToken
          in case getSecretOrNull e refreshTokenSecretName w of
               (Inl err, w1) \<Rightarrow> (Inl err, w1)
             | (Inr refreshToken, w1) \<Rightarrow>
                 if \<not> truthy refreshToken then (Inl TenantNotAuthorized, w1)
                 else (case refreshTokens e (string_of refreshToken) w1 of
                         (Inl err, w2) \<Rightarrow> (Inl err, w2)
                       | (Inr tokens, w2) \<Rightarrow>
                           let cacheSeconds = idTokenCacheSeconds (config e);
                               expires = now + cacheSeconds * 1000;
                               idt = string_of (id_token_of tokens);
                               w3 = w2\<lparr>idTokenCache := (idTokenCache w2)
                                      (tenantHost \<mapsto> \<lparr> token = idt, expiresAt = expires \<rparr>)\<rparr>
                           in if truthy (refresh_token_of tokens)
                              then (case setSecret e refreshTokenSecretName
                                           (string_of (refresh_token_of tokens)) w3 of
                                      (Inl err, w4) \<Rightarrow> (Inl err, w4)
                                    | (Inr _, w4) \<Rightarrow> (Inr idt, w4))
                              else (Inr idt, w3)))"

definition storeRefreshToken :: "env \<Rightarrow> string \<Rightarrow> string \<Rightarrow> world \<Rightarrow> (error + unit) \<times> world" where
  "storeRefreshToken e tenantHost refreshToken w =
     setSecret e (buildSecretName tenantHost RefreshToken) refreshToken w"

definition clearIdTokenCache :: "string option \<Rightarrow> world \<Rightarrow> world" where
  "clearIdTokenCache tenantHost w =
     (if truthy tenantHost
      then w\<lparr>idTokenCache := (idTokenCache w)(string_of tenantHost := None)\<rparr>
      else w\<lparr>idTokenCache := Map.empty\<rparr>)"

section \<open>proxy/vincereClient.ts\<close>

text \<open>The request URL is kept as the string handed to \<^verbatim>\<open>new URL\<close> and the query
  parameters set on it; what \<^verbatim>\<open>new URL\<close> does to that string (refusing a malformed host,
  resolving dot segments, percent-encoding) is not modelled. Of the answer, the status and
  the data are kept; the response headers and the measured duration play no part in what
  follows.\<close>

definition buildVincereUrl :: "string \<Rightarrow> string \<Rightarrow> string" where
  "buildVincereUrl tenantHost path =
     (let cleanPath = (if startsWith path ''/'' then drop 1 path else path);
          cleanPath' = (if \<not> startsWith cleanPath ''api/v2/'' then ''api/v2/'' @ cleanPath
                        else cleanPath)
      in ''https://'' @ tenantHost @ ''/'' @ cleanPath')"

definition callVincereApi ::
  "env \<Rightarrow> int \<Rightarrow> string \<Rightarrow> string \<Rightarrow> string \<Rightarrow> (string \<times> string) list \<Rightarrow> string option
     \<Rightarrow> world \<Rightarrow> (error + http_response) \<times> world" where
  "callVincereApi e now tenantHost path meth query reqBody w =
     (case getIdTokenForTenant e now tenantHost w of
        (Inl err, w1) \<Rightarrow> (Inl err, w1)
      | (Inr idToken, w1) \<Rightarrow>
          (case getSecretOrNull e (buildSecretName tenantHost ApiKey) w1 of
             (Inl err, w2) \<Rightarrow> (Inl err, w2)
           | (Inr apiKey, w2) \<Rightarrow>
               let hs = [(''id-token'', idToken), (''Content-Type'', ''application/json''),
                         (''Accept'', ''application/json'')]
                        @ (if truthy apiKey then [(''x-api-key'', string_of apiKey)] else []);
                   req = \<lparr> url = buildVincereUrl tenantHost path, params = query,
                           http_method = meth, headers = hs,
                           content = (if meth = ''POST''
                                      then (case reqBody of Some b \<Rightarrow> Json b | None \<Rightarrow> NoBody)
                                      else NoBody) \<rparr>
               in (case axiosClient_request e req w2 of
                     (Inl err, w3) \<Rightarrow> (Inl (AxiosFailure err), w3)
                   | (Inr resp, w3) \<Rightarrow> (Inr resp, w3))))"

section \<open>The route handlers\<close>

text \<open>A handler's answer: the HTTP status, the body, and the telemetry event with its
  \<^verbatim>\<open>reason\<close> property. The \<^verbatim>\<open>x-proxy-*\<close> headers a successful proxy answer carries (and
  their refusal of control characters) are left out, and query parameters are taken as a
  list of ordinary keys.\<close>

datatype reply_body =
    ErrorJson "string option" "string option"
  | DataJson payload
  | HtmlPage string

record reply =
  http_status :: nat
  reply_body :: reply_body
  event :: string
  reason :: "string option"

definition is_control :: "char \<Rightarrow> bool" where
  "is_control c = (code_unit c \<le> 31 \<or> code_unit c = 127)"

definition sanitizeQueryParams :: "(string \<times> string option) list \<Rightarrow> (string \<times> string) list" where
  "sanitizeQueryParams ps =
     concat (map (\<lambda>(k, v). case v of
                              Some s \<Rightarrow> [(k, filter (\<lambda>c. \<not> is_control c) s)]
                            | None \<Rightarrow> []) ps)"

subsection \<open>proxy/routes.ts\<close>

definition proxyRouter_all ::
  "env \<Rightarrow> int \<Rightarrow> string \<Rightarrow> string \<Rightarrow> string \<Rightarrow> (string \<times> string option) list \<Rightarrow> string option
     \<Rightarrow> world \<Rightarrow> reply \<times> world" where
  "proxyRouter_all e now tenantHost path meth rawQuery reqBody w =
     (let hostValidation = validateTenantHost (Some tenantHost)
      in if \<not> valid hostValidation
         then (\<lparr> http_status = 400, reply_body = ErrorJson (error hostValidation) None,
                 event = ''proxy_request_failed'', reason = Some ''invalid_host'' \<rparr>, w)
         else let pathValidation = validatePath (Some path)
              in if \<not> valid pathValidation
                 then (\<lparr> http_status = 400, reply_body = ErrorJson (error pathValidation) None,
                         event = ''proxy_request_failed'', reason = Some ''invalid_path'' \<rparr>, w)
                 else (case callVincereApi e now tenantHost path meth
                              (sanitizeQueryParams rawQuery)
                              (if meth = ''POST'' then reqBody else None) w of
                         (Inr resp, w') \<Rightarrow>
                           (\<lparr> http_status = status resp, reply_body = DataJson (data resp),
                              event = ''proxy_request_success'', reason = None \<rparr>, w')
                       | (Inl err, w') \<Rightarrow>
                           if includes_str (error_message err) ''not authorized''
                           then (\<lparr> http_status = 401,
                                   reply_body = ErrorJson
                                     (Some ''Tenant not authorized. Please complete OAuth flow first.'')
                                     (Some (''Visit /auth/start?tenantHost='' @ tenantHost)),
                                   event = ''proxy_request_failed'',
                                   reason = Some ''upstream_error'' \<rparr>, w')
                           else (\<lparr> http_status = 502,
                                   reply_body = ErrorJson
                                     (Some ''Failed to proxy request to Vincere'')
                                     (Some (error_message err)),
                                   event = ''proxy_request_failed'',
                                   reason = Some ''upstream_error'' \<rparr>, w')))"

subsection \<open>oauth/routes.ts: the callback\<close>

text \<open>The query of the callback. \<open>q_error\<close> is \<open>None\<close> when the provider sent no
  \<^verbatim>\<open>error\<close> parameter; \<open>q_code\<close> and \<open>q_state\<close> are \<open>None\<close> when they are not strings.\<close>

record callback_query =
  q_code :: "string option"
  q_state :: "string option"
  q_error :: "string option"
  q_error_description :: "string option"

definition oauthRouter_callback :: "env \<Rightarrow> callback_query \<Rightarrow> world \<Rightarrow> reply \<times> world" where
  "oauthRouter_callback e q w =
     (if truthy (q_error q)
      then (\<lparr> http_status = 400, reply_body = HtmlPage ''Authorization Failed'',
              event = ''oauth_callback_failed'', reason = Some ''oauth_error'' \<rparr>, w)
      else let codeValidation = validateAuthCode (q_code q)
           in if \<not> valid codeValidation
              then (\<lparr> http_status = 400, reply_body = ErrorJson (error codeValidation) None,
                      event = ''oauth_callback_failed'', reason = Some ''invalid_code'' \<rparr>, w)
              else let stateValidation = validateOAuthState (q_state q)
                   in if \<not> valid stateValidation
                      then (\<lparr> http_status = 400,
                              reply_body = ErrorJson (error stateValidation) None,
                              event = ''oauth_callback_failed'',
                              reason = Some ''invalid_state'' \<rparr>, w)
                      else let tenantHost = (case split CHR '':'' (string_of (q_state q)) of
                                                _ # part # _ \<Rightarrow> part | _ \<Rightarrow> []);
                               failed = \<lparr> http_status = 500,
                                          reply_body = HtmlPage ''Authorization Failed'',
                                          event = ''oauth_callback_failed'',
                                          reason = Some ''exchange_error'' \<rparr>
                           in (case exchangeCodeForTokens e (string_of (q_code q)) tenantHost w of
                                 (Inl err, w1) \<Rightarrow> (failed, w1)
                               | (Inr (refreshToken, idToken), w1) \<Rightarrow>
                                   (case storeRefreshToken e tenantHost refreshToken w1 of
                                      (Inl err, w2) \<Rightarrow> (failed, w2)
                                    | (Inr _, w2) \<Rightarrow>
                                        (\<lparr> http_status = 200,
                                            reply_body = HtmlPage ''Authorization Complete'',
                                            event = ''oauth_callback_success'',
                                            reason = None \<rparr>, w2))))"

section \<open>Concurrent calls of \<open>getIdTokenForTenant\<close>\<close>

text \<open>
  The process is a single-threaded event loop: a call runs without interruption up to its
  next \<^verbatim>\<open>await\<close>, and other calls run while it waits. A suspended call is a task that
  remembers the locals it still needs; \<open>resume\<close> performs the awaited operation and runs
  the call on to its next \<^verbatim>\<open>await\<close> or to its end. An awaited operation takes effect at
  the moment its call is resumed; the three awaits are the secret read, the token request
  (with the client's retries) and the secret write.
\<close>

datatype task =
    AwaitSecret int string string
  | AwaitRefresh int string string string
  | AwaitSetSecret string string string
  | Finished "error + string"

definition start_task :: "int \<Rightarrow> string \<Rightarrow> world \<Rightarrow> task" where
  "start_task now tenantHost w =
     (case cache_hit w tenantHost now of
        Some tok \<Rightarrow> Finished (Inr tok)
      | None \<Rightarrow> AwaitSecret now tenantHost (buildSecretName tenantHost RefreshToken))"

fun resume :: "env \<Rightarrow> task \<Rightarrow> world \<Rightarrow> task \<times> world" where
  "resume e (AwaitSecret now tenantHost secretName) w =
     (case getSecretOrNull e secretName w of
        (Inl err, w1) \<Rightarrow> (Finished (Inl err), w1)
      | (Inr refreshToken, w1) \<Rightarrow>
          if \<not> truthy refreshToken then (Finished (Inl TenantNotAuthorized), w1)
          else (AwaitRefresh now tenantHost secretName (string_of refreshToken), w1))"
| "resume e (AwaitRefresh now tenantHost secretName refreshToken) w =
     (case refreshTokens e refreshToken w of
        (Inl err, w2) \<Rightarrow> (Finished (Inl err), w2)
      | (Inr tokens, w2) \<Rightarrow>
          let cacheSeconds = idTokenCacheSeconds (config e);
              expires = now + cacheSeconds * 1000;
              idt = string_of (id_token_of tokens);
              w3 = w2\<lparr>idTokenCache := (idTokenCache w2)
                     (tenantHost \<mapsto> \<lparr> token = idt, expiresAt = expires \<rparr>)\<rparr>
          in if truthy (refresh_token_of tokens)
             then (AwaitSetSecret secretName (string_of (refresh_token_of tokens)) idt, w3)
             else (Finished (Inr idt), w3))"
| "resume e (AwaitSetSecret secretName newRefreshToken idt) w =
     (case setSecret e secretName newRefreshToken w of
        (Inl err, w4) \<Rightarrow> (Finished (Inl err), w4)
      | (Inr _, w4) \<Rightarrow> (Finished (Inr idt), w4))"
| "resume e (Finished r) w = (Finished r, w)"

text \<open>A call running alone: it is resumed until it has finished (three awaits at most).\<close>

fun run_alone :: "nat \<Rightarrow> env \<Rightarrow> task \<Rightarrow> world \<Rightarrow> task \<times> world" where
  "run_alone 0 e k w = (k, w)"
| "run_alone (Suc n) e k w = (case resume e k w of (k', w') \<Rightarrow> run_alone n e k' w')"

text \<open>Several calls: the schedule names, step by step, the task whose awaited operation
  completes next.\<close>

fun run :: "env \<Rightarrow> nat list \<Rightarrow> task list \<times> world \<Rightarrow> task list \<times> world" where
  "run e [] s = s"
| "run e (i # sched) (ks, w) =
     (if i < length ks
      then (case resume e (ks ! i) w of (k', w') \<Rightarrow> run e sched (ks[i := k'], w'))
      else run e sched (ks, w))"

fun is_Finished :: "task \<Rightarrow> bool" where
  "is_Finished (Finished _) = True"
| "is_Finished _ = False"

text \<open>A task that has not yet sent its refresh request, and what every suspended call for
  the secret \<open>name\<close> carries: that name, and a rotation value that was tested non-empty.\<close>

fun owes_refresh :: "task \<Rightarrow> bool" where
  "owes_refresh (AwaitSecret _ _ _) = True"
| "owes_refresh (AwaitRefresh _ _ _ _) = True"
| "owes_refresh _ = False"

fun task_for :: "string \<Rightarrow> task \<Rightarrow> bool" where
  "task_for name (AwaitSecret _ _ secretName) = (secretName = name)"
| "task_for name (AwaitRefresh _ _ secretName _) = (secretName = name)"
| "task_for name (AwaitSetSecret secretName newRefreshToken _) =
     (secretName = name \<and> newRefreshToken \<noteq> [])"
| "task_for name (Finished _) = True"

section \<open>Measures on the history\<close>

fun is_HttpCall :: "effect \<Rightarrow> bool" where
  "is_HttpCall (HttpCall _) = True"
| "is_HttpCall _ = False"

definition http_calls :: "world \<Rightarrow> nat" where
  "http_calls w = length (filter is_HttpCall (trace w))"

text \<open>The upstream calls made so far together with those still owed, and the invariant
  of concurrent calls for one secret: a non-empty refresh token stays stored.\<close>

definition owed :: "task list \<times> world \<Rightarrow> nat" where
  "owed s = http_calls (snd s) + length (filter owes_refresh (fst s))"

definition credential_kept :: "string \<Rightarrow> task list \<times> world \<Rightarrow> bool" where
  "credential_kept name s =
     (truthy (secrets (snd s) name) \<and> list_all (task_for name) (fst s))"

section \<open>Sample surroundings\<close>

definition sample_config :: Config where
  "sample_config =
     \<lparr> idBase = ''https://id.vincere.io'', clientId = ''client-1'',
       redirectUri = ''https://proxy.example/auth/callback'', idTokenCacheSeconds = 50 \<rparr>"

definition sample_tokens :: "string \<Rightarrow> string option \<Rightarrow> payload" where
  "sample_tokens idt r =
     Tokens \<lparr> access_token = ''A'', refresh_token = r, id_token = Some idt,
              expires_in = 3600, token_type = ''Bearer'' \<rparr>"

text \<open>A provider that answers the \<open>k\<close>-th transmission with the id token \<open>T<k+1>\<close>, and one
  that also rotates the refresh token to \<open>R<k+2>\<close>.\<close>

definition sample_env :: env where
  "sample_env =
     \<lparr> config = sample_config,
       wire = (\<lambda>k req. Answer 200 (sample_tokens (''T'' @ show_nat (k + 1)) None)),
       random = (\<lambda>k. 1 / 2),
       kv_fault = (\<lambda>k. None) \<rparr>"


text \<open>A provider that is overloaded once: 503 to the first transmission, tokens after.\<close>

definition overloaded_env :: env where
  "overloaded_env =
     sample_env\<lparr> wire := (\<lambda>k req. if k = 0 then Answer 503 (Document ''Service Unavailable'')
                                 else Answer 200 (sample_tokens ''T1'' None)) \<rparr>"

text \<open>A network on which no transmission gets an answer.\<close>

definition offline_env :: env where
  "offline_env = sample_env\<lparr> wire := (\<lambda>k req. NoAnswer ''ECONNRESET'') \<rparr>"

definition sample_world :: world where
  "sample_world =
     \<lparr> idTokenCache = Map.empty,
       secrets = [''vincere/acme-vincere-io/refresh_token'' \<mapsto> ''R1''],
       trace = [], transmissions = 0, delays = [] \<rparr>"

text \<open>The sample world after one successful call at time 1000, with the tenant's secrets
  then deleted from the Key Vault by an operator.\<close>

definition revoked_world :: world where
  "revoked_world =
     (snd (getIdTokenForTenant sample_env 1000 ''acme.vincere.io'' sample_world))
       \<lparr> secrets := Map.empty \<rparr>"

section \<open>Facts about strings\<close>

lemma startsWith_iff: "startsWith s p \<longleftrightarrow> (\<exists>b. s = p @ b)"
  unfolding startsWith_def
  by (metis append_eq_conv_conj append_take_drop_id)

lemma includes_str_iff: "includes_str s sub \<longleftrightarrow> (\<exists>a b. s = a @ sub @ b)"
proof (induction s)
  case Nil
  then show ?case by auto
next
  case (Cons x xs)
  show ?case
  proof
    assume "includes_str (x # xs) sub"
    then consider "startsWith (x # xs) sub" | "includes_str xs sub" by auto
    then show "\<exists>a b. x # xs = a @ sub @ b"
    proof cases
      case 1
      then obtain b where "x # xs = sub @ b" by (auto simp: startsWith_iff)
      then have "x # xs = [] @ sub @ b" by simp
      then show ?thesis by blast
    next
      case 2
      then obtain a b where "xs = a @ sub @ b" using Cons.IH by auto
      then have "x # xs = (x # a) @ sub @ b" by simp
      then show ?thesis by blast
    qed
  next
    assume "\<exists>a b. x # xs = a @ sub @ b"
    then obtain a b where ab: "x # xs = a @ sub @ b" by auto
    show "includes_str (x # xs) sub"
    proof (cases a)
      case Nil
      with ab have "startsWith (x # xs) sub" by (auto simp: startsWith_iff)
      then show ?thesis by simp
    next
      case (Cons y ys)
      with ab have "xs = ys @ sub @ b" by simp
      then have "includes_str xs sub" using Cons.IH by blast
      then show ?thesis by simp
    qed
  qed
qed

lemma dropWhile_keeps_infix:
  assumes "sub \<noteq> []" "\<not> P (hd sub)"
  shows "\<exists>a'. dropWhile P (a @ sub @ b) = a' @ sub @ b"
proof (cases "\<forall>x\<in>set a. P x")
  case True
  obtain y ys where sub: "sub = y # ys" using assms(1) by (cases sub) auto
  with assms(2) have "dropWhile P (sub @ b) = sub @ b" by simp
  with True have "dropWhile P (a @ sub @ b) = [] @ sub @ b"
    by (simp add: dropWhile_append)
  then show ?thesis by blast
next
  case False
  then have "dropWhile P (a @ sub @ b) = dropWhile P a @ sub @ b"
    by (auto simp: dropWhile_append)
  then show ?thesis by blast
qed

lemma trim_keeps_infix:
  assumes "sub \<noteq> []" "\<not> is_ws (hd sub)" "\<not> is_ws (last sub)"
  shows "\<exists>a' b'. trim (a @ sub @ b) = a' @ sub @ b'"
proof -
  obtain a' where a': "dropWhile is_ws (a @ sub @ b) = a' @ sub @ b"
    using dropWhile_keeps_infix[of sub is_ws a b] assms by blast
  have "rev sub \<noteq> []" "\<not> is_ws (hd (rev sub))"
    using assms by (auto simp: hd_rev)
  then obtain c where c: "dropWhile is_ws (rev b @ rev sub @ rev a') = c @ rev sub @ rev a'"
    using dropWhile_keeps_infix[of "rev sub" is_ws "rev b" "rev a'"] by blast
  have "trim (a @ sub @ b) = a' @ sub @ rev c"
    unfolding trim_def a' by (simp add: c)
  then show ?thesis by blast
qed

lemma trim_keeps_includes:
  assumes "includes_str s sub" "sub \<noteq> []" "\<not> is_ws (hd sub)" "\<not> is_ws (last sub)"
  shows "includes_str (trim s) sub"
  using assms trim_keeps_infix unfolding includes_str_iff by metis

lemma trim_keeps_startsWith:
  assumes "startsWith s p" "p \<noteq> []" "\<not> is_ws (hd p)" "\<not> is_ws (last p)"
  shows "startsWith (trim s) p"
proof -
  obtain b where s: "s = p @ b" using assms(1) by (auto simp: startsWith_iff)
  obtain y ys where p: "p = y # ys" using assms(2) by (cases p) auto
  have 1: "dropWhile is_ws (p @ b) = p @ b" using assms(3) p by simp
  have "rev p \<noteq> []" "\<not> is_ws (hd (rev p))" using assms by (auto simp: hd_rev)
  then obtain c where c: "dropWhile is_ws (rev b @ rev p @ []) = c @ rev p @ []"
    using dropWhile_keeps_infix[of "rev p" is_ws "rev b" "[]"] by blast
  have "trim s = p @ rev c" unfolding trim_def s 1 using c by simp
  then show ?thesis by (simp add: startsWith_iff)
qed

lemma split_nonce:
  "CHR '':'' \<notin> set nonce \<Longrightarrow> split CHR '':'' (nonce @ CHR '':'' # rest) = nonce # split CHR '':'' rest"
  by (induction nonce) auto

lemma split_not_Nil: "split c s \<noteq> []"
  by (induction s) (auto split: list.splits)

section \<open>Secret names\<close>

lemma clean_char_alphabet:
  "clean_char c =
     (c \<in> set ''ABCDEFGHIJKLMNOPQRSTUVWXYZabcdefghijklmnopqrstuvwxyz0123456789-'')"
  by (cases c) (simp add: clean_char_def is_lower_def is_upper_def is_digit_def code_unit_def)

lemma replace_class_single: "replace_class cls [r] s = map (\<lambda>c. if cls c then r else c) s"
  by (induction s) (auto simp: replace_class_def)

text \<open>
  Claim C8. For every tenant string, the name built for a refresh token is
  \<open>vincere/<sanitizedTenant>/refresh_token\<close> and the name built for an API key is
  \<open>vincere/<sanitizedTenant>/api_key\<close>: the fixed namespace \<open>vincere\<close>, then the tenant
  with every character outside \<open>[A-Za-z0-9-]\<close> replaced by a hyphen (position by position,
  the others kept), then the secret type under its own literal name.
\<close>

theorem buildSecretName_scheme:
  "buildSecretName tenant RefreshToken =
     ''vincere/''
     @ map (\<lambda>c. if c \<in> set ''ABCDEFGHIJKLMNOPQRSTUVWXYZabcdefghijklmnopqrstuvwxyz0123456789-''
                 then c else CHR ''-'') tenant
     @ ''/refresh_token''
   \<and> buildSecretName tenant ApiKey =
     ''vincere/''
     @ map (\<lambda>c. if c \<in> set ''ABCDEFGHIJKLMNOPQRSTUVWXYZabcdefghijklmnopqrstuvwxyz0123456789-''
                 then c else CHR ''-'') tenant
     @ ''/api_key''"
proof -
  have "replace_class (\<lambda>c. \<not> clean_char c) ''-'' tenant =
        map (\<lambda>c. if c \<in> set ''ABCDEFGHIJKLMNOPQRSTUVWXYZabcdefghijklmnopqrstuvwxyz0123456789-''
                 then c else CHR ''-'') tenant"
    unfolding replace_class_single clean_char_alphabet by (rule map_cong) auto
  then show ?thesis by (simp add: buildSecretName_def)
qed

theorem buildSecretName_scheme_witness:
  "buildSecretName ''Acme_01.vincere.io'' RefreshToken = ''vincere/Acme-01-vincere-io/refresh_token''
   \<and> buildSecretName ''Acme_01.vincere.io'' ApiKey = ''vincere/Acme-01-vincere-io/api_key''"
  using buildSecretName_scheme [of "''Acme_01.vincere.io''"] by simp

section \<open>Validation comes before any external call\<close>

text \<open>
  Claim C10. The callback validates the authorization code before the state: when both
  are invalid (and the provider reported no error of its own), the answer is the 400 of the
  code validation, tracked as \<open>invalid_code\<close>, not the one of the state validation; the
  world is left as it was.
\<close>

theorem callback_validates_code_first:
  assumes "\<not> truthy (q_error q)"
    and "\<not> valid (validateAuthCode (q_code q))"
    and "\<not> valid (validateOAuthState (q_state q))"
  shows "oauthRouter_callback e q w =
           (\<lparr> http_status = 400, reply_body = ErrorJson (error (validateAuthCode (q_code q))) None,
              event = ''oauth_callback_failed'', reason = Some ''invalid_code'' \<rparr>, w)"
  using assms by (simp add: oauthRouter_callback_def)

lemma short_nonce_state_invalid:
  assumes "CHR '':'' \<notin> set nonce" "length nonce < 16"
  shows "\<not> valid (validateOAuthState (Some (nonce @ CHR '':'' # rest)))"
proof -
  have sp: "split CHR '':'' (nonce @ CHR '':'' # rest) = nonce # split CHR '':'' rest"
    using assms(1) by (rule split_nonce)
  show ?thesis
    using assms(2) unfolding validateOAuthState_def
    by (simp add: sp invalid_def split: list.splits)
qed

text \<open>
  Claim C7. With a code that passes code validation, a state \<open>nonce:rest\<close> whose nonce
  has fewer than 16 characters is rejected with the 400 of the state validation, tracked
  as \<open>invalid_state\<close>, and the world is returned unchanged: no token exchange was
  attempted.
\<close>

theorem callback_short_nonce:
  assumes "\<not> truthy (q_error q)"
    and "valid (validateAuthCode (q_code q))"
    and "q_state q = Some (nonce @ CHR '':'' # rest)"
    and "CHR '':'' \<notin> set nonce"
    and "length nonce < 16"
  shows "\<not> valid (validateOAuthState (q_state q)) \<and>
         oauthRouter_callback e q w =
           (\<lparr> http_status = 400,
              reply_body = ErrorJson (error (validateOAuthState (q_state q))) None,
              event = ''oauth_callback_failed'', reason = Some ''invalid_state'' \<rparr>, w)"
proof -
  have "\<not> valid (validateOAuthState (q_state q))"
    using assms(3-5) short_nonce_state_invalid by simp
  then show ?thesis using assms(1,2) by (simp add: oauthRouter_callback_def)
qed

lemma validatePath_rejects:
  assumes "includes_str path ''..'' \<or> includes_str path ''//''
           \<or> includes_str path [char_of (0::nat)]
           \<or> startsWith path ''/'' \<or> startsWith path ''http://''
           \<or> startsWith path ''https://''"
  shows "\<not> valid (validatePath (Some path)) \<and>
         error (validatePath (Some path)) \<in> {Some ''Invalid path'', Some ''Invalid path format''}"
proof -
  have ws: "\<not> is_ws CHR ''.''" "\<not> is_ws CHR ''/''" "\<not> is_ws (char_of (0::nat))"
           "\<not> is_ws CHR ''h''"
    by (simp_all add: is_ws_def code_unit_def)
  have ne: "path \<noteq> []" using assms by (auto simp: startsWith_def)
  have a: "includes_str path ''..'' \<Longrightarrow> includes_str (trim path) ''..''"
    by (rule trim_keeps_includes) (simp_all add: ws)
  have b: "includes_str path ''//'' \<Longrightarrow> includes_str (trim path) ''//''"
    by (rule trim_keeps_includes) (simp_all add: ws)
  have c: "includes_str path [char_of (0::nat)] \<Longrightarrow> includes_str (trim path) [char_of (0::nat)]"
    by (rule trim_keeps_includes) (simp_all add: ws)
  have d: "startsWith path ''/'' \<Longrightarrow> startsWith (trim path) ''/''"
    by (rule trim_keeps_startsWith) (simp_all add: ws)
  have e: "startsWith path ''http://'' \<Longrightarrow> startsWith (trim path) ''http://''"
    by (rule trim_keeps_startsWith) (simp_all add: ws)
  have f: "startsWith path ''https://'' \<Longrightarrow> startsWith (trim path) ''https://''"
    by (rule trim_keeps_startsWith) (simp_all add: ws)
  from assms a b c d e f consider
      (a) "includes_str (trim path) ''..''" | (b) "includes_str (trim path) ''//''"
    | (c) "includes_str (trim path) [char_of (0::nat)]"
    | (d) "startsWith (trim path) ''/''" | (e) "startsWith (trim path) ''http://''"
    | (f) "startsWith (trim path) ''https://''"
    by blast
  then show ?thesis
    by cases (simp_all add: validatePath_def ne invalid_def Let_def)
qed

text \<open>
  Claim C6. For a tenant that passes tenant validation and any method, query and body, a
  path that contains \<open>..\<close>, \<open>//\<close> or a null byte, or that starts with \<open>/\<close>,
  \<open>http://\<close> or \<open>https://\<close>, is answered with the 400 of the path validation, tracked
  as \<open>invalid_path\<close>; the world is returned unchanged, so neither the Secret Store nor
  the upstream was contacted.
\<close>

theorem proxy_rejects_bad_path:
  assumes "valid (validateTenantHost (Some tenantHost))"
    and "includes_str path ''..'' \<or> includes_str path ''//''
         \<or> includes_str path [char_of (0::nat)]
         \<or> startsWith path ''/'' \<or> startsWith path ''http://''
         \<or> startsWith path ''https://''"
  shows "proxyRouter_all e now tenantHost path meth rawQuery reqBody w =
           (\<lparr> http_status = 400, reply_body = ErrorJson (error (validatePath (Some path))) None,
              event = ''proxy_request_failed'', reason = Some ''invalid_path'' \<rparr>, w)
         \<and> error (validatePath (Some path)) \<in> {Some ''Invalid path'', Some ''Invalid path format''}"
  using assms(1) validatePath_rejects [OF assms(2)]
  by (simp add: proxyRouter_all_def Let_def)


theorem callback_validates_code_first_witness:
  "\<not> valid (validateAuthCode (Some ''short'')) \<and>
   \<not> valid (validateOAuthState (Some ''shortnonce:tenant.example.io'')) \<and>
   oauthRouter_callback sample_env
     \<lparr> q_code = Some ''short'', q_state = Some ''shortnonce:tenant.example.io'',
       q_error = None, q_error_description = None \<rparr> sample_world =
     (\<lparr> http_status = 400, reply_body = ErrorJson (Some ''Invalid code length'') None,
        event = ''oauth_callback_failed'', reason = Some ''invalid_code'' \<rparr>, sample_world)"
proof -
  let ?q = "\<lparr> q_code = Some ''short'', q_state = Some ''shortnonce:tenant.example.io'',
              q_error = None, q_error_description = None \<rparr>"
  have h1: "\<not> truthy (q_error ?q)" by simp
  have h2: "\<not> valid (validateAuthCode (q_code ?q))" by code_simp
  have h3: "\<not> valid (validateOAuthState (q_state ?q))" by code_simp
  have m: "error (validateAuthCode (Some ''short'')) = Some ''Invalid code length''"
    by code_simp
  show ?thesis
    using callback_validates_code_first [OF h1 h2 h3, of sample_env sample_world] h2 h3 m
    by simp
qed

theorem callback_short_nonce_witness:
  "valid (validateAuthCode (Some ''abcdef123456'')) \<and>
   oauthRouter_callback sample_env
     \<lparr> q_code = Some ''abcdef123456'', q_state = Some ''shortnonce:tenant.example.io'',
       q_error = None, q_error_description = None \<rparr> sample_world =
     (\<lparr> http_status = 400, reply_body = ErrorJson (Some ''Invalid state'') None,
        event = ''oauth_callback_failed'', reason = Some ''invalid_state'' \<rparr>, sample_world)"
proof -
  let ?q = "\<lparr> q_code = Some ''abcdef123456'', q_state = Some ''shortnonce:tenant.example.io'',
              q_error = None, q_error_description = None \<rparr>"
  have h1: "\<not> truthy (q_error ?q)" by simp
  have h2: "valid (validateAuthCode (q_code ?q))" by code_simp
  have h3: "q_state ?q = Some (''shortnonce'' @ CHR '':'' # ''tenant.example.io'')" by simp
  have h4: "CHR '':'' \<notin> set ''shortnonce''" by simp
  have h5: "length ''shortnonce'' < 16" by simp
  have m: "error (validateOAuthState (Some ''shortnonce:tenant.example.io'')) = Some ''Invalid state''"
    by code_simp
  show ?thesis
    using callback_short_nonce [OF h1 h2 h3 h4 h5, of sample_env sample_world] h2 m
    by simp
qed

theorem proxy_rejects_bad_path_witness:
  "valid (validateTenantHost (Some ''acme.vincere.io'')) \<and>
   includes_str ''../secret'' ''..'' \<and>
   proxyRouter_all sample_env 1000 ''acme.vincere.io'' ''../secret'' ''GET'' [] None sample_world =
     (\<lparr> http_status = 400, reply_body = ErrorJson (Some ''Invalid path'') None,
        event = ''proxy_request_failed'', reason = Some ''invalid_path'' \<rparr>, sample_world)"
proof -
  have h1: "valid (validateTenantHost (Some ''acme.vincere.io''))" by code_simp
  have h2: "includes_str ''../secret'' ''..''" by code_simp
  have m: "error (validatePath (Some ''../secret'')) = Some ''Invalid path''" by code_simp
  have h2': "includes_str ''../secret'' ''..'' \<or> includes_str ''../secret'' ''//''
         \<or> includes_str ''../secret'' [char_of (0::nat)]
         \<or> startsWith ''../secret'' ''/'' \<or> startsWith ''../secret'' ''http://''
         \<or> startsWith ''../secret'' ''https://''"
    by (rule disjI1) (rule h2)
  have "proxyRouter_all sample_env 1000 ''acme.vincere.io'' ''../secret'' ''GET'' [] None
          sample_world =
        (\<lparr> http_status = 400,
           reply_body = ErrorJson (error (validatePath (Some ''../secret''))) None,
           event = ''proxy_request_failed'', reason = Some ''invalid_path'' \<rparr>, sample_world)"
    by (rule conjunct1 [OF proxy_rejects_bad_path [OF h1 h2']])
  then have r: "proxyRouter_all sample_env 1000 ''acme.vincere.io'' ''../secret'' ''GET'' [] None
          sample_world =
        (\<lparr> http_status = 400, reply_body = ErrorJson (Some ''Invalid path'') None,
           event = ''proxy_request_failed'', reason = Some ''invalid_path'' \<rparr>, sample_world)"
    by (simp only: m)
  show ?thesis by (intro conjI h1 h2 r)
qed

section \<open>What the external calls change\<close>

lemma transmit_frame:
  "idTokenCache (snd (transmit e req k w)) = idTokenCache w \<and>
   secrets (snd (transmit e req k w)) = secrets w \<and>
   trace (snd (transmit e req k w)) = trace w"
proof (induction e req k w rule: transmit.induct)
  case (1 e req retryCount w)
  show ?case
    by (subst (1 2 3) transmit.simps) (use 1 in \<open>auto simp: Let_def split: sum.splits\<close>)
qed

lemma axiosClient_request_frame:
  "idTokenCache (snd (axiosClient_request e req w)) = idTokenCache w \<and>
   secrets (snd (axiosClient_request e req w)) = secrets w \<and>
   trace (snd (axiosClient_request e req w)) = trace w @ [HttpCall req]"
  by (simp add: axiosClient_request_def transmit_frame)

lemma refreshTokens_frame:
  "idTokenCache (snd (refreshTokens e rt w)) = idTokenCache w \<and>
   secrets (snd (refreshTokens e rt w)) = secrets w \<and>
   (\<exists>req. trace (snd (refreshTokens e rt w)) = trace w @ [HttpCall req])"
  using axiosClient_request_frame
    [of e "form_post (tokenUrl e)
             [(''grant_type'', ''refresh_token''), (''refresh_token'', rt),
              (''client_id'', clientId (config e))]" w]
  by (auto simp: refreshTokens_def Let_def split: prod.splits sum.splits)

lemma refreshTokens_id_token:
  "refreshTokens e rt w = (Inr tokens, w') \<Longrightarrow> truthy (id_token_of tokens)"
  by (auto simp: refreshTokens_def Let_def split: prod.splits sum.splits if_splits)

lemma getSecretOrNull_world:
  "snd (getSecretOrNull e name w) = w\<lparr>trace := trace w @ [GetSecret name]\<rparr>"
  by (auto simp: getSecretOrNull_def client_getSecret_def Let_def
           split: option.splits error.splits sum.splits prod.splits)

lemma getSecretOrNull_value:
  "kv_fault e (length (trace w)) = None \<Longrightarrow>
   fst (getSecretOrNull e name w) =
     Inr (case secrets w name of None \<Rightarrow> None | Some v \<Rightarrow> if v = [] then None else Some v)"
  by (auto simp: getSecretOrNull_def client_getSecret_def Let_def split: option.splits)

lemma getSecretOrNull_truthy:
  "getSecretOrNull e name w = (Inr (Some v), w') \<Longrightarrow> secrets w name = Some v \<and> v \<noteq> []"
  by (auto simp: getSecretOrNull_def client_getSecret_def Let_def
           split: option.splits error.splits sum.splits prod.splits if_splits)

lemma setSecret_ok:
  "setSecret e name v w = (Inr u, w') \<Longrightarrow>
   w' = w\<lparr>trace := trace w @ [SetSecret name v], secrets := (secrets w)(name \<mapsto> v)\<rparr>"
  by (auto simp: setSecret_def client_setSecret_def Let_def split: option.splits)

lemma setSecret_frame:
  "idTokenCache (snd (setSecret e name v w)) = idTokenCache w \<and>
   trace (snd (setSecret e name v w)) = trace w @ [SetSecret name v]"
  by (auto simp: setSecret_def client_setSecret_def Let_def split: option.splits)

lemma http_calls_append [simp]:
  "http_calls (w\<lparr>trace := trace w @ [x]\<rparr>) = http_calls w + (if is_HttpCall x then 1 else 0)"
  by (simp add: http_calls_def)


lemma getIdTokenForTenant_hit:
  "cache_hit w tenantHost now = Some tok \<Longrightarrow>
   getIdTokenForTenant e now tenantHost w = (Inr tok, w)"
  by (simp add: getIdTokenForTenant_def)

lemma getIdTokenForTenant_refreshed:
  assumes miss: "cache_hit w tenantHost now = None"
    and ok: "getIdTokenForTenant e now tenantHost w = (Inr tok, w')"
  obtains v tokens wb where
    "secrets w (buildSecretName tenantHost RefreshToken) = Some v" "v \<noteq> []"
    "refreshTokens e v (w\<lparr>trace := trace w @ [GetSecret (buildSecretName tenantHost RefreshToken)]\<rparr>)
       = (Inr tokens, wb)"
    "tok = string_of (id_token_of tokens)"
    "w' = (let w3 = wb\<lparr>idTokenCache := (idTokenCache wb)
                     (tenantHost \<mapsto> \<lparr> token = tok,
                        expiresAt = now + idTokenCacheSeconds (config e) * 1000 \<rparr>)\<rparr>
           in if truthy (refresh_token_of tokens)
              then w3\<lparr>trace := trace w3 @ [SetSecret (buildSecretName tenantHost RefreshToken)
                                             (string_of (refresh_token_of tokens))],
                      secrets := (secrets w3)(buildSecretName tenantHost RefreshToken
                                               \<mapsto> string_of (refresh_token_of tokens))\<rparr>
              else w3)"
proof -
  let ?name = "buildSecretName tenantHost RefreshToken"
  let ?wa = "w\<lparr>trace := trace w @ [GetSecret ?name]\<rparr>"
  obtain r wa where g: "getSecretOrNull e ?name w = (r, wa)" by (cases "getSecretOrNull e ?name w")
  have wa: "wa = ?wa" using getSecretOrNull_world [of e ?name w] g by simp
  from ok miss g obtain v where r: "r = Inr (Some v)" and v: "v \<noteq> []"
    by (auto simp: getIdTokenForTenant_def Let_def split: sum.splits if_splits
             elim!: truthy.elims)
  have sv: "secrets w ?name = Some v" using getSecretOrNull_truthy g r by blast
  obtain r2 wb where rt: "refreshTokens e v ?wa = (r2, wb)" by (cases "refreshTokens e v ?wa")
  from ok miss g r v rt wa obtain tokens where r2: "r2 = Inr tokens"
    by (auto simp: getIdTokenForTenant_def Let_def split: sum.splits)
  let ?idt = "string_of (id_token_of tokens)"
  let ?w3 = "wb\<lparr>idTokenCache := (idTokenCache wb)
                     (tenantHost \<mapsto> \<lparr> token = ?idt,
                        expiresAt = now + idTokenCacheSeconds (config e) * 1000 \<rparr>)\<rparr>"
  have tok: "tok = ?idt"
    using ok miss g r v rt wa r2
    by (auto simp: getIdTokenForTenant_def Let_def split: sum.splits if_splits prod.splits)
  have w': "w' = (if truthy (refresh_token_of tokens)
              then ?w3\<lparr>trace := trace ?w3 @ [SetSecret ?name (string_of (refresh_token_of tokens))],
                      secrets := (secrets ?w3)(?name \<mapsto> string_of (refresh_token_of tokens))\<rparr>
              else ?w3)"
  proof (cases "truthy (refresh_token_of tokens)")
    case True
    obtain r3 w4 where ss: "setSecret e ?name (string_of (refresh_token_of tokens)) ?w3 = (r3, w4)"
      by (cases "setSecret e ?name (string_of (refresh_token_of tokens)) ?w3")
    from ok miss g r v rt wa r2 True ss obtain u where r3: "r3 = Inr u" and w4: "w' = w4"
      by (auto simp: getIdTokenForTenant_def Let_def split: sum.splits)
    from setSecret_ok [OF ss [unfolded r3]] w4 True show ?thesis by simp
  next
    case False
    with ok miss g r v rt wa r2 show ?thesis
      by (auto simp: getIdTokenForTenant_def Let_def split: sum.splits)
  qed
  show ?thesis
    by (rule that [OF sv v rt [unfolded r2] tok]) (simp add: w' tok Let_def)
qed

section \<open>The token cache and the refresh path\<close>

text \<open>
  Claim C2. A call at time \<open>now\<close> that is not served from the cache and succeeds makes
  exactly one upstream call and caches its token with \<open>expiresAt = now + cacheWindow\<close> (the
  configured seconds, in milliseconds). The entry is fresh exactly at the times before
  \<open>expiresAt\<close>, and a second call at any such time returns the same token and leaves the
  world as it is: no secret is read and no further upstream call is made.
\<close>

theorem cached_token_served_within_window:
  assumes miss: "cache_hit w tenantHost now = None"
    and ok: "fst (getIdTokenForTenant e now tenantHost w) = Inr tok"
  shows "let w1 = snd (getIdTokenForTenant e now tenantHost w);
             expires = now + idTokenCacheSeconds (config e) * 1000
         in idTokenCache w1 tenantHost = Some \<lparr> token = tok, expiresAt = expires \<rparr>
            \<and> http_calls w1 = http_calls w + 1
            \<and> (\<forall>now'. cache_hit w1 tenantHost now' = (if now' < expires then Some tok else None))
            \<and> (\<forall>now'. now' < expires \<longrightarrow>
                   getIdTokenForTenant e now' tenantHost w1 = (Inr tok, w1))"
proof -
  let ?name = "buildSecretName tenantHost RefreshToken"
  let ?expires = "now + idTokenCacheSeconds (config e) * 1000"
  obtain w1 where run: "getIdTokenForTenant e now tenantHost w = (Inr tok, w1)"
    using ok by (cases "getIdTokenForTenant e now tenantHost w") auto
  from getIdTokenForTenant_refreshed [OF miss run]
  obtain v tokens wb where
    rt: "refreshTokens e v (w\<lparr>trace := trace w @ [GetSecret ?name]\<rparr>) = (Inr tokens, wb)"
    and w1: "w1 = (let w3 = wb\<lparr>idTokenCache := (idTokenCache wb)
                     (tenantHost \<mapsto> \<lparr> token = tok, expiresAt = ?expires \<rparr>)\<rparr>
           in if truthy (refresh_token_of tokens)
              then w3\<lparr>trace := trace w3 @ [SetSecret ?name (string_of (refresh_token_of tokens))],
                      secrets := (secrets w3)(?name \<mapsto> string_of (refresh_token_of tokens))\<rparr>
              else w3)"
    by metis
  have cache: "idTokenCache w1 tenantHost = Some \<lparr> token = tok, expiresAt = ?expires \<rparr>"
    by (simp add: w1 Let_def)
  from refreshTokens_frame [of e v "w\<lparr>trace := trace w @ [GetSecret ?name]\<rparr>"] rt
  obtain req where tr: "trace wb = trace w @ [GetSecret ?name] @ [HttpCall req]"
    by auto
  have calls: "http_calls w1 = http_calls w + 1"
    by (simp add: w1 Let_def http_calls_def tr)
  have fresh: "cache_hit w1 tenantHost now' = (if now' < ?expires then Some tok else None)" for now'
    by (simp add: cache_hit_def cache)
  have again: "getIdTokenForTenant e now' tenantHost w1 = (Inr tok, w1)" if "now' < ?expires" for now'
    using that fresh [of now'] by (simp add: getIdTokenForTenant_hit)
  show ?thesis
    unfolding Let_def using run cache calls fresh again by simp
qed

text \<open>
  Claim C3, as amended. When no fresh token is cached for the tenant, the Key Vault
  answers, and it holds no refresh token for the tenant (none, or an empty value), the call
  fails with \<open>TenantNotAuthorized\<close>; the only effect is the secret read, so no request
  reaches the upstream.
\<close>

theorem unauthorized_without_upstream_call:
  assumes stale: "cache_hit w tenantHost now = None"
    and answers: "kv_fault e (length (trace w)) = None"
    and absent: "secrets w (buildSecretName tenantHost RefreshToken) = None
                 \<or> secrets w (buildSecretName tenantHost RefreshToken) = Some []"
  shows "getIdTokenForTenant e now tenantHost w =
           (Inl TenantNotAuthorized,
            w\<lparr>trace := trace w @ [GetSecret (buildSecretName tenantHost RefreshToken)]\<rparr>)"
proof -
  let ?name = "buildSecretName tenantHost RefreshToken"
  have "fst (getSecretOrNull e ?name w) = Inr None"
    using getSecretOrNull_value [OF answers, of ?name] absent by auto
  then have "getSecretOrNull e ?name w = (Inr None, w\<lparr>trace := trace w @ [GetSecret ?name]\<rparr>)"
    using getSecretOrNull_world [of e ?name w] by (cases "getSecretOrNull e ?name w") simp
  then show ?thesis using stale by (simp add: getIdTokenForTenant_def)
qed


theorem cached_token_served_within_window_witness:
  "cache_hit sample_world ''acme.vincere.io'' 1000 = None \<and>
   fst (getIdTokenForTenant sample_env 1000 ''acme.vincere.io'' sample_world) = Inr ''T1'' \<and>
   http_calls (snd (getIdTokenForTenant sample_env 1000 ''acme.vincere.io'' sample_world)) = 1 \<and>
   getIdTokenForTenant sample_env 11000 ''acme.vincere.io''
       (snd (getIdTokenForTenant sample_env 1000 ''acme.vincere.io'' sample_world)) =
     (Inr ''T1'', snd (getIdTokenForTenant sample_env 1000 ''acme.vincere.io'' sample_world))"
proof -
  have h1: "cache_hit sample_world ''acme.vincere.io'' 1000 = None" by code_simp
  have h2: "fst (getIdTokenForTenant sample_env 1000 ''acme.vincere.io'' sample_world) = Inr ''T1''"
    by code_simp
  have c: "http_calls sample_world = 0" by code_simp
  have t: "(11000::int) < 1000 + idTokenCacheSeconds (config sample_env) * 1000"
    by (simp add: sample_env_def sample_config_def)
  show ?thesis
    using cached_token_served_within_window [OF h1 h2] h1 h2 c t
    by (simp add: Let_def)
qed

text \<open>
  Claim C3 as stated does not hold: the cache is consulted before the Key Vault. In
  \<open>revoked_world\<close> no refresh token is stored for the validated tenant, and a call within
  the cache window still succeeds with the cached token.
\<close>

theorem unauthorized_without_upstream_call_counterexample:
  "valid (validateTenantHost (Some ''acme.vincere.io'')) \<and>
   secrets revoked_world (buildSecretName ''acme.vincere.io'' RefreshToken) = None \<and>
   fst (getIdTokenForTenant sample_env 2000 ''acme.vincere.io'' revoked_world) = Inr ''T1''"
  by code_simp

theorem unauthorized_without_upstream_call_witness:
  "valid (validateTenantHost (Some ''newco.vincere.io'')) \<and>
   cache_hit sample_world ''newco.vincere.io'' 1000 = None \<and>
   secrets sample_world (buildSecretName ''newco.vincere.io'' RefreshToken) = None \<and>
   fst (getIdTokenForTenant sample_env 1000 ''newco.vincere.io'' sample_world)
     = Inl TenantNotAuthorized \<and>
   http_calls (snd (getIdTokenForTenant sample_env 1000 ''newco.vincere.io'' sample_world)) = 0 \<and>
   transmissions (snd (getIdTokenForTenant sample_env 1000 ''newco.vincere.io'' sample_world)) = 0"
proof -
  have v: "valid (validateTenantHost (Some ''newco.vincere.io''))" by code_simp
  have h1: "cache_hit sample_world ''newco.vincere.io'' 1000 = None" by code_simp
  have h2: "kv_fault sample_env (length (trace sample_world)) = None" by code_simp
  have h3: "secrets sample_world (buildSecretName ''newco.vincere.io'' RefreshToken) = None"
    by code_simp
  have c: "http_calls sample_world = 0" "transmissions sample_world = 0" by code_simp+
  show ?thesis
    using unauthorized_without_upstream_call [OF h1 h2 disjI1 [OF h3]] v h1 h3 c
    by simp
qed


text \<open>
  Claim C9. \<open>ACME.vincere.io\<close> and \<open>acme.vincere.io\<close> differ only in letter case and both
  pass tenant validation, which lower-cases a copy and hands the original on. Their secret
  names differ, and so do their cache keys: after a proxied request has authorised and
  cached the lower-case tenant, the cache has no entry for the upper-case one, whose request
  is answered 401 (no refresh token under its name).
\<close>

theorem case_variants_are_separate_tenants:
  "valid (validateTenantHost (Some ''ACME.vincere.io'')) \<and>
   valid (validateTenantHost (Some ''acme.vincere.io'')) \<and>
   toLowerCase ''ACME.vincere.io'' = toLowerCase ''acme.vincere.io'' \<and>
   buildSecretName ''ACME.vincere.io'' RefreshToken = ''vincere/ACME-vincere-io/refresh_token'' \<and>
   buildSecretName ''acme.vincere.io'' RefreshToken = ''vincere/acme-vincere-io/refresh_token'' \<and>
   buildSecretName ''ACME.vincere.io'' RefreshToken \<noteq> buildSecretName ''acme.vincere.io'' RefreshToken \<and>
   http_status (fst (proxyRouter_all sample_env 1000 ''acme.vincere.io'' ''candidate/search''
                  ''GET'' [] None sample_world)) = 200 \<and>
   idTokenCache (snd (proxyRouter_all sample_env 1000 ''acme.vincere.io'' ''candidate/search''
                  ''GET'' [] None sample_world)) ''acme.vincere.io''
     = Some \<lparr> token = ''T1'', expiresAt = 51000 \<rparr> \<and>
   idTokenCache (snd (proxyRouter_all sample_env 1000 ''acme.vincere.io'' ''candidate/search''
                  ''GET'' [] None sample_world)) ''ACME.vincere.io'' = None \<and>
   http_status (fst (proxyRouter_all sample_env 2000 ''ACME.vincere.io'' ''candidate/search''
                  ''GET'' [] None
                  (snd (proxyRouter_all sample_env 1000 ''acme.vincere.io'' ''candidate/search''
                     ''GET'' [] None sample_world)))) = 401"
  by code_simp

section \<open>The retry policy of the HTTP client\<close>

text \<open>
  Every status is accepted by \<open>validateStatus\<close>, so a transmission that gets an HTTP
  answer is resolved at once, whatever its status and however many retries are left; only a
  transmission that fails on the network without an answer is retried, three times at
  most, each after a delay of \<open>2^n\<close> seconds plus less than a second of jitter.
\<close>

lemma answered_transmission_is_final:
  "wire e (transmissions w) req = Answer st d \<Longrightarrow>
   transmit e req retryCount w =
     (Inr \<lparr> status = st, data = d \<rparr>, w\<lparr>transmissions := transmissions w + 1\<rparr>)"
  by (subst transmit.simps) (simp add: settle_def validateStatus_def)

lemma unanswered_transmission_is_retried:
  assumes "wire e (transmissions w) req = NoAnswer msg" and "retryCount < retries"
  shows "transmit e req retryCount w =
           transmit e req (retryCount + 1)
             (w\<lparr>transmissions := transmissions w + 1,
                delays := delays w @ [retryDelay (retryCount + 1) (random e (length (delays w)))]\<rparr>)"
  using assms
  by (subst transmit.simps) (simp add: settle_def retryCondition_def)

lemma last_unanswered_transmission_fails:
  assumes "wire e (transmissions w) req = NoAnswer msg" and "\<not> retryCount < retries"
  shows "transmit e req retryCount w =
           (Inl \<lparr> response = None, message = msg \<rparr>, w\<lparr>transmissions := transmissions w + 1\<rparr>)"
  using assms
  by (subst transmit.simps) (simp add: settle_def retryCondition_def)

lemma retryDelay_bounds:
  assumes "0 \<le> rnd" "rnd < 1"
  shows "2 ^ retryCount * 1000 \<le> retryDelay retryCount rnd"
    and "retryDelay retryCount rnd < 2 ^ retryCount * 1000 + 1000"
  using assms by (simp_all add: retryDelay_def)

lemma retryDelay_grows:
  assumes "0 \<le> rnd" "rnd < 1" "0 \<le> rnd'" "rnd' < 1"
  shows "retryDelay retryCount rnd < retryDelay (retryCount + 1) rnd'"
proof -
  have "(1::real) \<le> 2 ^ retryCount" by simp
  then have "rnd * 1000 < 2 ^ retryCount * 1000 + rnd' * 1000"
    using assms by (smt (verit) mult_right_mono)
  then show ?thesis by (simp add: retryDelay_def)
qed

lemma network_failure_is_retried_three_times:
  assumes "\<And>k. wire e k req = NoAnswer msg"
  shows "fst (transmit e req 0 w) = Inl \<lparr> response = None, message = msg \<rparr>"
    and "transmissions (snd (transmit e req 0 w)) = transmissions w + 4"
    and "length (delays (snd (transmit e req 0 w))) = length (delays w) + 3"
  by (simp_all add: unanswered_transmission_is_retried [OF assms]
        last_unanswered_transmission_fails [OF assms] retries_def numeral_3_eq_3)

text \<open>
  Claim C5 at a failing input. \<open>retryCondition\<close> asks for a retry of an error that
  carries a 503, but no such error is ever built: the provider that answers 503 once and
  would answer 200 to a second transmission is asked once, without any delay, and the
  refresh fails with the 503 (the proxy answers 502).
\<close>

theorem answered_503_is_not_retried:
  "retryCondition \<lparr> response = Some \<lparr> status = 503, data = Document ''Service Unavailable'' \<rparr>,
                    message = ''Request failed with status code 503'' \<rparr> \<and>
   fst (refreshTokens overloaded_env ''R1'' sample_world) = Inl (TokenRefreshFailed 503) \<and>
   transmissions (snd (refreshTokens overloaded_env ''R1'' sample_world)) = 1 \<and>
   delays (snd (refreshTokens overloaded_env ''R1'' sample_world)) = [] \<and>
   fst (getIdTokenForTenant overloaded_env 1000 ''acme.vincere.io'' sample_world)
     = Inl (TokenRefreshFailed 503) \<and>
   http_status (fst (proxyRouter_all overloaded_env 1000 ''acme.vincere.io'' ''candidate/search''
                  ''GET'' [] None sample_world)) = 502"
  by code_simp

text \<open>
  The part of the policy that is in force: without any answer the request is put on the
  wire four times, after delays of 2, 4 and 8 seconds plus jitter.
\<close>

lemma offline_example:
  "transmissions (snd (refreshTokens offline_env ''R1'' sample_world)) = 4 \<and>
   delays (snd (refreshTokens offline_env ''R1'' sample_world)) = [2500, 4500, 8500]"
  by code_simp

section \<open>Concurrent calls for one tenant\<close>

text \<open>
  The task model is the function cut at its awaits: a call that runs alone ends with the
  result and the world of \<open>getIdTokenForTenant\<close>.
\<close>

lemma run_alone_refines:
  "run_alone 3 e (start_task now tenantHost w) w =
     (Finished (fst (getIdTokenForTenant e now tenantHost w)),
      snd (getIdTokenForTenant e now tenantHost w))"
  by (simp add: numeral_3_eq_3 start_task_def getIdTokenForTenant_def Let_def
           split: option.splits prod.splits sum.splits)

lemma filter_length_update:
  "i < length ks \<Longrightarrow>
   length (filter P (ks[i := k])) + (if P (ks ! i) then 1 else 0)
     = length (filter P ks) + (if P k then 1 else 0)"
proof (induction ks arbitrary: i)
  case Nil
  then show ?case by simp
next
  case (Cons a ks)
  then show ?case by (cases i) auto
qed

text \<open>
  One resumption keeps a non-empty refresh token stored (a rotation writes a value that
  was tested non-empty) and keeps the sum of the upstream calls made and owed.
\<close>

lemma resume_step:
  assumes answers: "\<And>n. kv_fault e n = None"
    and stored: "secrets w name = Some v" "v \<noteq> []"
    and task: "task_for name k"
  shows "(\<exists>v'. secrets (snd (resume e k w)) name = Some v' \<and> v' \<noteq> [])
         \<and> task_for name (fst (resume e k w))
         \<and> http_calls (snd (resume e k w)) + (if owes_refresh (fst (resume e k w)) then 1 else 0)
             = http_calls w + (if owes_refresh k then 1 else 0)"
proof (cases k)
  case (AwaitSecret now tenantHost secretName)
  with task have n: "secretName = name" by simp
  have "getSecretOrNull e name w = (Inr (Some v), w\<lparr>trace := trace w @ [GetSecret name]\<rparr>)"
    using getSecretOrNull_value [OF answers, where w = w and name = name]
      getSecretOrNull_world [of e name w] stored
    by (cases "getSecretOrNull e name w") simp
  then show ?thesis using AwaitSecret n stored by simp
next
  case (AwaitRefresh now tenantHost secretName refreshToken)
  with task have n: "secretName = name" by simp
  obtain r w2 where rt: "refreshTokens e refreshToken w = (r, w2)"
    by (cases "refreshTokens e refreshToken w")
  from refreshTokens_frame [of e refreshToken w] rt
  obtain req where fr: "secrets w2 = secrets w" "trace w2 = trace w @ [HttpCall req]"
    by auto
  have hc: "http_calls w2 = http_calls w + 1" by (simp add: http_calls_def fr)
  show ?thesis
  proof (cases r)
    case (Inl err)
    then show ?thesis using AwaitRefresh rt fr hc stored by simp
  next
    case (Inr tokens)
    have "truthy x \<Longrightarrow> string_of x \<noteq> []" for x by (cases x) auto
    then show ?thesis
      using AwaitRefresh Inr rt fr hc stored n
      by (auto simp: Let_def http_calls_def)
  qed
next
  case (AwaitSetSecret secretName newRefreshToken idt)
  with task have n: "secretName = name" "newRefreshToken \<noteq> []" by simp_all
  have "setSecret e name newRefreshToken w =
          (Inr (), w\<lparr>trace := trace w @ [SetSecret name newRefreshToken],
                     secrets := (secrets w)(name \<mapsto> newRefreshToken)\<rparr>)"
    by (simp add: setSecret_def client_setSecret_def answers)
  then show ?thesis using AwaitSetSecret n by (simp add: http_calls_def)
next
  case (Finished r)
  then show ?thesis using stored by simp
qed

lemma run_keeps:
  assumes answers: "\<And>n. kv_fault e n = None"
  shows "credential_kept name s \<Longrightarrow>
         credential_kept name (run e sched s) \<and> owed (run e sched s) = owed s"
proof (induction sched arbitrary: s)
  case Nil
  then show ?case by simp
next
  case (Cons i sched)
  obtain ks w where s: "s = (ks, w)" by (cases s)
  show ?case
  proof (cases "i < length ks")
    case False
    then show ?thesis using Cons s by simp
  next
    case True
    from Cons.prems s obtain v where st: "secrets w name = Some v" "v \<noteq> []"
      and all: "list_all (task_for name) ks"
      by (auto simp: credential_kept_def elim!: truthy.elims)
    have tk: "task_for name (ks ! i)" using all True by (simp add: list_all_length)
    obtain k' w' where r: "resume e (ks ! i) w = (k', w')" by (cases "resume e (ks ! i) w")
    from resume_step [OF answers st tk] r
    have 1: "\<exists>v'. secrets w' name = Some v' \<and> v' \<noteq> []" and 2: "task_for name k'"
      and 3: "http_calls w' + (if owes_refresh k' then 1 else 0)
                = http_calls w + (if owes_refresh (ks ! i) then 1 else 0)"
      by simp_all
    have "list_all (task_for name) (ks[i := k'])"
      using all 2 by (auto simp: list_all_iff dest: set_update_subset_insert [THEN subsetD])
    then have kept: "credential_kept name (ks[i := k'], w')"
      using 1 by (auto simp: credential_kept_def)
    have "owed (ks[i := k'], w') = owed (ks, w)"
      using filter_length_update [OF True, of owes_refresh k'] 3
      by (simp add: owed_def split: if_splits)
    with Cons.IH [OF kept] True r s show ?thesis by simp
  qed
qed

text \<open>
  Claim C1, as amended. There is no lock and no shared in-flight refresh: calls issued
  together on a stale cache have all passed the cache test before any of them is resumed,
  and each goes on to read the secret and to refresh. With a refresh token stored and a Key
  Vault that answers, \<open>N\<close> such calls have made exactly \<open>N\<close> upstream calls once all have
  finished, in whatever order their awaited operations complete.
\<close>

theorem simultaneous_calls_each_refresh:
  assumes stale: "\<forall>now \<in> set nows. cache_hit w tenantHost now = None"
    and stored: "secrets w (buildSecretName tenantHost RefreshToken) = Some v" "v \<noteq> []"
    and answers: "\<forall>n. kv_fault e n = None"
    and finished:
      "list_all is_Finished
         (fst (run e sched (map (\<lambda>now. start_task now tenantHost w) nows, w)))"
  shows "http_calls (snd (run e sched (map (\<lambda>now. start_task now tenantHost w) nows, w)))
           = http_calls w + length nows"
proof -
  let ?name = "buildSecretName tenantHost RefreshToken"
  let ?ks = "map (\<lambda>now. start_task now tenantHost w) nows"
  have ks: "?ks = map (\<lambda>now. AwaitSecret now tenantHost ?name) nows"
    using stale by (simp add: start_task_def)
  have kept: "credential_kept ?name (?ks, w)"
    unfolding ks using stored by (simp add: credential_kept_def list_all_iff)
  have o0: "owed (?ks, w) = http_calls w + length nows"
    unfolding ks by (simp add: owed_def o_def)
  have "owed (run e sched (?ks, w)) = owed (?ks, w)"
    using run_keeps [of e ?name "(?ks, w)" sched] answers kept by simp
  moreover have "filter owes_refresh (fst (run e sched (?ks, w))) = []"
  proof -
    have "is_Finished k \<Longrightarrow> \<not> owes_refresh k" for k by (cases k) auto
    with finished show ?thesis by (auto simp: list_all_iff filter_empty_conv)
  qed
  ultimately show ?thesis using o0 by (simp add: owed_def)
qed

text \<open>
  Claim C1 as stated does not hold: two calls for a validated tenant, issued together on a
  stale cache and resumed in turn, make two upstream refresh calls and return different
  tokens.
\<close>

theorem simultaneous_calls_counterexample:
  "valid (validateTenantHost (Some ''acme.vincere.io'')) \<and>
   cache_hit sample_world ''acme.vincere.io'' 1000 = None \<and>
   fst (run sample_env [0, 1, 0, 1]
          ([start_task 1000 ''acme.vincere.io'' sample_world,
            start_task 1000 ''acme.vincere.io'' sample_world], sample_world))
     = [Finished (Inr ''T1''), Finished (Inr ''T2'')] \<and>
   http_calls (snd (run sample_env [0, 1, 0, 1]
          ([start_task 1000 ''acme.vincere.io'' sample_world,
            start_task 1000 ''acme.vincere.io'' sample_world], sample_world))) = 2"
  by code_simp

theorem simultaneous_calls_each_refresh_witness:
  "cache_hit sample_world ''acme.vincere.io'' 1000 = None \<and>
   cache_hit sample_world ''acme.vincere.io'' 1001 = None \<and>
   list_all is_Finished
     (fst (run sample_env [0, 1, 1, 0]
        (map (\<lambda>now. start_task now ''acme.vincere.io'' sample_world) [1000, 1001],
         sample_world))) \<and>
   http_calls
     (snd (run sample_env [0, 1, 1, 0]
        (map (\<lambda>now. start_task now ''acme.vincere.io'' sample_world) [1000, 1001],
         sample_world))) = 2"
proof -
  have h1: "\<forall>now \<in> set [1000, 1001]. cache_hit sample_world ''acme.vincere.io'' now = None"
    by code_simp
  have h2: "secrets sample_world (buildSecretName ''acme.vincere.io'' RefreshToken) = Some ''R1''"
    by code_simp
  have h3: "''R1'' \<noteq> []" by simp
  have h4: "\<forall>n. kv_fault sample_env n = None"
    by (simp add: sample_env_def)
  have h5: "list_all is_Finished
     (fst (run sample_env [0, 1, 1, 0]
        (map (\<lambda>now. start_task now ''acme.vincere.io'' sample_world) [1000, 1001],
         sample_world)))"
    by code_simp
  have c: "http_calls sample_world = 0" by code_simp
  show ?thesis
    using simultaneous_calls_each_refresh [OF h1 h2 h3 h4 h5] h1 h5 c
    by simp
qed

end
